theory Spec2Isabelle
  imports Complex_Main
begin

section \<open>Errors (types.ts)\<close>

text \<open>
  The three custom error classes of the repository, and every other \<open>Error\<close> instance
  (a plain \<open>Error\<close>, the \<open>SyntaxError\<close> of a JSON parse, an error of the Redis client)
  as \<open>JsError name message\<close>. The constructors of the custom classes set \<open>this.name\<close>.
\<close>

datatype error =
    RateLimitError string
  | NetworkError string
  | ValidationError string
  | JsError string string

fun error_name :: "error \<Rightarrow> string" where
  "error_name (RateLimitError m) = ''RateLimitError''"
| "error_name (NetworkError m) = ''NetworkError''"
| "error_name (ValidationError m) = ''ValidationError''"
| "error_name (JsError n m) = n"

fun error_message :: "error \<Rightarrow> string" where
  "error_message (RateLimitError m) = m"
| "error_message (NetworkError m) = m"
| "error_message (ValidationError m) = m"
| "error_message (JsError n m) = m"

record StockData =
  ticker :: string
  name :: string
  sector :: string
  yield :: real

record AlphaVantageResponse =
  Symbol :: "string option"
  Sector :: "string option"
  DividendYield :: "string option"
  Note :: "string option"
  Error_Message :: "string option"

text \<open>One entry of the SEC ticker file; \<open>SECTickerResponse\<close> is the object holding them,
  kept as the list of its (key, entry) pairs in key order.\<close>

record SECTickerEntry =
  cik_str :: nat
  sec_ticker :: string
  title :: string

type_synonym SECTickerResponse = "(string \<times> SECTickerEntry) list"

section \<open>Sector translation (dataFetcher.ts, getSectorTranslation)\<close>

text \<open>
  Strings are lists of 8-bit characters read as Latin-1 code points;
  \<open>String.prototype.toLowerCase\<close> maps the capital letters A-Z and the capital
  letters of the Latin-1 supplement (all of 192..222 but the multiplication sign 215)
  to the letter 32 places further on, and leaves every other character alone.
\<close>

definition toLowerChar :: "char \<Rightarrow> char" where
  "toLowerChar c =
     (let n = (of_char c :: nat) in
      if (65 \<le> n \<and> n \<le> 90) \<or> (192 \<le> n \<and> n \<le> 222 \<and> n \<noteq> 215)
      then char_of (n + 32) else c)"

definition toLowerCase :: "string \<Rightarrow> string" where
  "toLowerCase s = map toLowerChar s"

text \<open>The \<open>switch\<close> of the source, case by case in its order: the first matching
  case label wins, so the second \<open>"basic materials"\<close> label is kept where it stands.\<close>

definition getSectorTranslation :: "string \<Rightarrow> string" where
  "getSectorTranslation sector0 =
     (let s = toLowerCase sector0 in
      if s = ''technology'' \<or> s = ''industrials'' \<or> s = ''basic materials''
        then ''Manufacturing''
      else if s = ''healthcare'' \<or> s = ''financial services'' \<or> s = ''communication services''
        then ''Services''
      else if s = ''basic materials''
        then ''Agriculture''
      else if s = ''consumer cyclical'' \<or> s = ''consumer defensive''
        then ''Retail''
      else if s = ''real estate''
        then ''Property''
      else if s = ''utilities'' \<or> s = ''energy''
        then ''Energy''
      else ''Unknown'')"

text \<open>The six labels the \<open>switch\<close> assigns, and the default.\<close>

definition sectorLabels :: "string list" where
  "sectorLabels =
     [''Manufacturing'', ''Services'', ''Agriculture'', ''Retail'', ''Property'', ''Energy'',
      ''Unknown'']"

section \<open>The outside world\<close>

text \<open>
  An HTTP response as \<open>fetchWithRetry\<close> reads it: the status, the status text, the
  \<open>Retry-After\<close> header, and the body: the JSON value it holds (\<open>Inr\<close>), or, for a
  body that is not JSON, the message the JSON parser gives for it (\<open>Inl\<close>). A call of
  \<open>fetch\<close> answers, is aborted by the timeout, or rejects with an error of its own.
\<close>

record 'b response =
  status :: nat
  statusText :: string
  retryAfter :: "string option"
  body :: "string + 'b"

datatype 'b fetched = Responded "'b response" | Aborted | Rejected error

text \<open>The two URLs the file builds: the SEC ticker file, and the Alpha Vantage
  overview of one symbol.\<close>

datatype url = CompanyTickers | Overview string

text \<open>
  What the program reads from outside: the configured API key, the request budget
  (\<open>parseInt\<close> of the environment variable, \<open>None\<close> for NaN), the answers of the two
  services to the n-th HTTP call the process makes, the builtin \<open>parseFloat\<close>
  (\<open>None\<close> for NaN), the message of the \<open>SyntaxError\<close> that the builtin
  \<open>JSON.parse\<close> throws for a text that is not JSON, and the clock's ISO timestamp.
\<close>

record world =
  alphaVantageAPIKey :: "string option"
  REQUESTS_PER_MINUTE :: "int option"
  overview :: "nat \<Rightarrow> string \<Rightarrow> AlphaVantageResponse fetched"
  company_tickers :: "nat \<Rightarrow> SECTickerResponse fetched"
  parseFloat :: "string \<Rightarrow> real option"
  parseError :: "string \<Rightarrow> string"
  now :: string

section \<open>The Redis store and the effects of the process\<close>

text \<open>
  What a key of the store holds. \<open>Raw\<close> is a string written as it is, which is
  no JSON text (the job status words, the empty string); the other constructors are
  the JSON texts \<open>JSON.stringify\<close> produces from the values of the program, and
  \<open>JSON.parse\<close> gives the value back. A field that is \<open>undefined\<close> (left out by
  \<open>JSON.stringify\<close>) or \<open>null\<close> is \<open>None\<close>.
  Expiry times are not modelled: a key stays until it is overwritten.
\<close>

record JobProgress =
  completed :: nat
  total :: "nat option"
  startedAt :: "string option"
  estimatedMinutes :: "int option"

datatype payload =
    Raw string
  | Tickers "string list"
  | Stock StockData
  | Progress JobProgress
  | Snapshot "StockData list"
  | ErrorPayload string string

text \<open>
  The state the process acts on: whether the store can be reached by the commands to
  come (\<open>link s n\<close> for the command after \<open>n\<close> others; the store may be lost and
  found again at any time), its keys, the HTTP calls made so far and the \<open>set\<close>
  commands carried out so far, both in order, and the number of commands that found the
  store unreachable.
\<close>

record sys =
  link :: "nat \<Rightarrow> bool"
  kv :: "string \<rightharpoonup> payload"
  calls :: "url list"
  writes :: "(string \<times> payload) list"
  refused :: nat

text \<open>The store is reachable, now and for every command to come.\<close>

definition up :: "sys \<Rightarrow> bool" where
  "up s = (\<forall>n. link s n)"

text \<open>One command has been issued: the next finds the store as \<open>link s 1\<close> says.\<close>

definition advance :: "sys \<Rightarrow> sys" where
  "advance s = s\<lparr>link := (\<lambda>n. link s (Suc n))\<rparr>"

text \<open>An \<open>async\<close> function: it runs on the state, and resolves or rejects.\<close>

type_synonym 'a io = "sys \<Rightarrow> (error + 'a) \<times> sys"

definition io_return :: "'a \<Rightarrow> 'a io" where
  "io_return x s = (Inr x, s)"

definition io_throw :: "error \<Rightarrow> 'a io" where
  "io_throw e s = (Inl e, s)"

definition io_bind :: "'a io \<Rightarrow> ('a \<Rightarrow> 'b io) \<Rightarrow> 'b io" where
  "io_bind m f s = (case m s of (Inl e, s') \<Rightarrow> (Inl e, s') | (Inr x, s') \<Rightarrow> f x s')"

definition io_catch :: "'a io \<Rightarrow> (error \<Rightarrow> 'a io) \<Rightarrow> 'a io" where
  "io_catch m h s = (case m s of (Inl e, s') \<Rightarrow> h e s' | (Inr x, s') \<Rightarrow> (Inr x, s'))"

text \<open>
  Modelled from the spec: the Redis client is a library outside the repository. Its
  \<open>get\<close> and \<open>set\<close> reject when the store cannot be reached (the spec's Unavailable
  error; the code has no class for it, so it is an \<open>Error\<close> of the client's own),
  \<open>get\<close> resolves to the value of the key or to null, \<open>set\<close> overwrites. A command
  that is refused changes nothing in the store.
\<close>

definition Unavailable :: error where
  "Unavailable = JsError ''ClientClosedError'' ''The client is closed''"

definition redis_get :: "string \<Rightarrow> payload option io" where
  "redis_get k s =
     (if link s 0 then (Inr (kv s k), advance s)
      else (Inl Unavailable, (advance s)\<lparr>refused := Suc (refused s)\<rparr>))"

definition redis_set :: "string \<Rightarrow> payload \<Rightarrow> unit io" where
  "redis_set k v s =
     (if link s 0 then
        (Inr (), (advance s)\<lparr>kv := (kv s)(k \<mapsto> v), writes := writes s @ [(k, v)]\<rparr>)
      else (Inl Unavailable, (advance s)\<lparr>refused := Suc (refused s)\<rparr>))"

text \<open>JavaScript truthiness of an optional string.\<close>

definition truthy :: "string option \<Rightarrow> bool" where
  "truthy v = (case v of None \<Rightarrow> False | Some t \<Rightarrow> t \<noteq> [])"

section \<open>The resilient HTTP client (dataFetcher.ts)\<close>

definition MAX_RETRIES :: nat where
  "MAX_RETRIES = 3"

text \<open>Decimal digits of a number, for the messages that quote a status.\<close>

fun decimal :: "nat \<Rightarrow> string" where
  "decimal n =
     (if n < 10 then [char_of (48 + n)] else decimal (n div 10) @ [char_of (48 + n mod 10)])"

text \<open>
  \<open>fetchWithTimeout\<close>: one HTTP call. The call is recorded; a timeout abort becomes
  \<open>NetworkError('Request timeout')\<close>, any other rejection is thrown on as it is.
\<close>

definition fetchWithTimeout :: "(nat \<Rightarrow> 'b fetched) \<Rightarrow> url \<Rightarrow> 'b response io" where
  "fetchWithTimeout endpoint u s =
     (let s' = s\<lparr>calls := calls s @ [u]\<rparr> in
      case endpoint (length (calls s)) of
        Responded r \<Rightarrow> (Inr r, s')
      | Aborted \<Rightarrow> (Inl (NetworkError ''Request timeout''), s')
      | Rejected e \<Rightarrow> (Inl e, s'))"

text \<open>\<open>response.ok\<close>.\<close>

definition ok :: "'b response \<Rightarrow> bool" where
  "ok r = (200 \<le> status r \<and> status r < 300)"

text \<open>\<open>res.json()\<close>, the parser both callers pass: for a body that is not JSON it
  throws a \<open>SyntaxError\<close> with the parser's message.\<close>

definition json :: "'b response \<Rightarrow> error + 'b" where
  "json r =
     (case body r of
        Inl m \<Rightarrow> Inl (JsError ''SyntaxError'' m)
      | Inr v \<Rightarrow> Inr v)"

text \<open>
  The body of the \<open>try\<close> block of one attempt, after the call has answered:
  \<open>continue\<close>, \<open>return\<close> or \<open>throw\<close>. The delays (\<open>sleep\<close>, with the
  backoff and its jitter) take time and change nothing else, and are left out.
\<close>

datatype 'a attempt_end = Continue | Return 'a | Throw error

definition classify ::
  "('b response \<Rightarrow> error + 'a) \<Rightarrow> nat \<Rightarrow> nat \<Rightarrow> 'b response \<Rightarrow> 'a attempt_end" where
  "classify parseResponse maxRetries attempt r =
     (if status r = 429 then
        (if attempt < maxRetries then Continue
         else Throw (RateLimitError ''API rate limit exceeded''))
      else if 500 \<le> status r \<and> status r < 600 then
        (if attempt < maxRetries then Continue
         else Throw (NetworkError (''Server error: '' @ decimal (status r))))
      else if 400 \<le> status r \<and> status r < 500 then
        Throw (ValidationError
          (''Client error: '' @ decimal (status r) @ '' - '' @ statusText r))
      else if ok r then
        (case parseResponse r of Inl e \<Rightarrow> Throw e | Inr v \<Rightarrow> Return v)
      else Throw (NetworkError (''Unexpected status: '' @ decimal (status r))))"

text \<open>The test of the \<open>catch\<close> block: the errors it throws on without a retry.\<close>

definition rethrown :: "error \<Rightarrow> bool" where
  "rethrown e =
     (case e of
        ValidationError m \<Rightarrow> True
      | RateLimitError m \<Rightarrow> True
      | _ \<Rightarrow> error_name e \<noteq> ''NetworkError'' \<and> error_message e \<noteq> ''Request timeout'')"

text \<open>
  The retry loop from attempt \<open>attempt\<close> on, with \<open>lastError\<close> as the loop has it.
\<close>

function fetchWithRetry_from ::
  "(nat \<Rightarrow> 'b fetched) \<Rightarrow> url \<Rightarrow> ('b response \<Rightarrow> error + 'a) \<Rightarrow> nat \<Rightarrow> nat \<Rightarrow> error option
     \<Rightarrow> 'a io" where
  "fetchWithRetry_from endpoint u parseResponse maxRetries attempt lastError s =
     (if attempt \<le> maxRetries then
        (case
           (case fetchWithTimeout endpoint u s of
              (Inl e, s') \<Rightarrow> (Throw e, s')
            | (Inr r, s') \<Rightarrow> (classify parseResponse maxRetries attempt r, s'))
         of
           (Continue, s') \<Rightarrow>
             fetchWithRetry_from endpoint u parseResponse maxRetries (Suc attempt) lastError s'
         | (Return v, s') \<Rightarrow> (Inr v, s')
         | (Throw e, s') \<Rightarrow>
             (if rethrown e then (Inl e, s')
              else fetchWithRetry_from endpoint u parseResponse maxRetries (Suc attempt)
                     (Some e) s'))
      else
        (case lastError of
           Some e \<Rightarrow> (Inl e, s)
         | None \<Rightarrow> (Inl (NetworkError ''Max retries exceeded''), s)))"
  by pat_completeness auto
termination
  by (relation "measure (\<lambda>(endpoint, u, parseResponse, maxRetries, attempt, lastError, s).
        Suc maxRetries - attempt)") auto

definition fetchWithRetry ::
  "(nat \<Rightarrow> 'b fetched) \<Rightarrow> url \<Rightarrow> ('b response \<Rightarrow> error + 'a) \<Rightarrow> nat \<Rightarrow> 'a io" where
  "fetchWithRetry endpoint u parseResponse maxRetries =
     fetchWithRetry_from endpoint u parseResponse maxRetries 0 None"

section \<open>The fetchers (dataFetcher.ts)\<close>

text \<open>\<open>fetchTickers\<close>: the SEC ticker file, and the ticker of each of its entries.\<close>

definition fetchTickers :: "world \<Rightarrow> string list io" where
  "fetchTickers w =
     io_bind (fetchWithRetry (company_tickers w) CompanyTickers json MAX_RETRIES)
       (\<lambda>r. io_return (map (\<lambda>item. sec_ticker (snd item)) r))"

text \<open>
  \<open>fetchStockFundamentals\<close>: one symbol from Alpha Vantage. It takes no Redis client
  and reads no cache: with an API key configured it goes to \<open>fetchWithRetry\<close> at once.
\<close>

definition fetchStockFundamentals :: "world \<Rightarrow> string \<Rightarrow> StockData io" where
  "fetchStockFundamentals w t =
     (if truthy (alphaVantageAPIKey w) then
        io_bind (fetchWithRetry (\<lambda>n. overview w n t) (Overview t) json MAX_RETRIES)
          (\<lambda>r.
             if truthy (Error_Message r) then
               io_throw (ValidationError (''Invalid ticker symbol: '' @ t))
             else if truthy (Note r) then
               io_throw (RateLimitError ''Alpha Vantage API rate limit reached'')
             else
               (case Symbol r of
                  None \<Rightarrow> io_throw (ValidationError (''No data found for ticker: '' @ t))
                | Some symb \<Rightarrow>
                    if symb = [] then
                      io_throw (ValidationError (''No data found for ticker: '' @ t))
                    else
                      io_return
                        \<lparr>ticker = symb,
                         name = symb,
                         sector =
                           (case Sector r of
                              None \<Rightarrow> ''Unknown''
                            | Some rawSector \<Rightarrow>
                                if rawSector = [] then ''Unknown''
                                else getSectorTranslation rawSector),
                         yield =
                           (case DividendYield r of
                              None \<Rightarrow> 0
                            | Some dy \<Rightarrow>
                                if dy = [] \<or> dy = ''None'' \<or> dy = ''-'' then 0
                                else (case parseFloat w dy of
                                        None \<Rightarrow> 0
                                      | Some parsed \<Rightarrow> parsed * 100))\<rparr>))
      else io_throw (JsError ''Error'' ''ALPHA_VANTAGE_API_KEY environment variable not set''))"

text \<open>The structured error text the \<open>catch\<close> block of \<open>fetcher\<close> returns.\<close>

definition errorResponse :: "error \<Rightarrow> payload" where
  "errorResponse e =
     (case e of
        RateLimitError m \<Rightarrow>
          ErrorPayload ''RATE_LIMIT'' ''API rate limit exceeded. Please try again later.''
      | ValidationError m \<Rightarrow> ErrorPayload ''VALIDATION_ERROR'' m
      | NetworkError m \<Rightarrow>
          ErrorPayload ''NETWORK_ERROR'' ''Network error occurred. Please try again.''
      | JsError n m \<Rightarrow> ErrorPayload ''UNKNOWN_ERROR'' ''An unexpected error occurred.'')"

text \<open>The part of \<open>fetcher\<close> after a cache miss.\<close>

definition fetchAndCache :: "world \<Rightarrow> string \<Rightarrow> payload io" where
  "fetchAndCache w key =
     (if key = ''tickers'' then
        io_bind (fetchTickers w)
          (\<lambda>tickers. io_bind (redis_set ''tickers'' (Tickers tickers))
            (\<lambda>_. io_return (Tickers tickers)))
      else
        io_bind (fetchStockFundamentals w key)
          (\<lambda>stockData. io_bind (redis_set key (Stock stockData))
            (\<lambda>_. io_return (Stock stockData))))"

text \<open>
  \<open>fetcher\<close>: the read-through cache. Its whole body stands in a \<open>try\<close> whose
  \<open>catch\<close> returns an error text for every error, so the promise never rejects.
  A cached empty string is falsy and counts as a miss.
\<close>

definition fetcher :: "world \<Rightarrow> string \<Rightarrow> payload io" where
  "fetcher w key =
     io_catch
       (if key = [] then io_throw (ValidationError ''Invalid key provided'')
        else
          io_bind (redis_get key)
            (\<lambda>cachedValue.
               case cachedValue of
                 None \<Rightarrow> fetchAndCache w key
               | Some p \<Rightarrow> if p = Raw [] then fetchAndCache w key else io_return p))
       (\<lambda>e. io_return (errorResponse e))"

section \<open>The snapshot job (snapshotJob.ts)\<close>

definition SNAPSHOT_KEY :: string where
  "SNAPSHOT_KEY = ''snapshot:all''"

definition JOB_STATUS_KEY :: string where
  "JOB_STATUS_KEY = ''snapshot:job:status''"

definition JOB_PROGRESS_KEY :: string where
  "JOB_PROGRESS_KEY = ''snapshot:job:progress''"

text \<open>
  \<open>Math.ceil(n / REQUESTS_PER_MINUTE)\<close> as \<open>JSON.stringify\<close> writes it: a division
  by zero or by NaN gives Infinity or NaN, which is written as \<open>null\<close>.
\<close>

definition estimate :: "world \<Rightarrow> int \<Rightarrow> int option" where
  "estimate w n =
     (case REQUESTS_PER_MINUTE w of
        None \<Rightarrow> None
      | Some r \<Rightarrow> if r = 0 then None else Some \<lceil>real_of_int n / real_of_int r\<rceil>)"

text \<open>The message of the error \<open>getAllTickers\<close> throws for a missing key.\<close>

definition not_in_cache :: string where
  "not_in_cache =
     ''Tickers not in cache. Run fetcher('' @ [CHR 0x22] @ ''tickers'' @ [CHR 0x22] @
     '', ...) first.''"

text \<open>
  \<open>getAllTickers\<close>: \<open>JSON.parse(raw) as string[]\<close>, with no check of what was
  parsed. The text of an array of strings gives the strings. The text of the snapshot
  is an array too, of objects: where the job uses such an element as a symbol (in the
  URL, in a message) JavaScript writes it \<open>[object Object]\<close>. The text of an object is
  no array (\<open>None\<close>): it has no \<open>length\<close> and cannot be iterated. A raw string (a
  status word) does not parse; the empty string counts as missing.
\<close>

definition getAllTickers :: "world \<Rightarrow> string list option io" where
  "getAllTickers w =
     io_bind (redis_get ''tickers'')
       (\<lambda>raw.
          case raw of
            None \<Rightarrow> io_throw (JsError ''Error'' not_in_cache)
          | Some p \<Rightarrow>
              (case p of
                 Tickers ts \<Rightarrow> io_return (Some ts)
               | Snapshot es \<Rightarrow> io_return (Some (map (\<lambda>e. ''[object Object]'') es))
               | Raw t \<Rightarrow>
                   if t = [] then io_throw (JsError ''Error'' not_in_cache)
                   else io_throw (JsError ''SyntaxError'' (parseError w t))
               | _ \<Rightarrow> io_return None))"

text \<open>
  The local variables of a run: \<open>completed\<close>, \<open>failed\<close> and \<open>snapshot\<close>
  (the fields of \<open>JobProgress\<close> have the first name already).
\<close>

record run_state =
  n_completed :: nat
  n_failed :: nat
  entries :: "StockData list"

definition run_start :: run_state where
  "run_start = \<lparr>n_completed = 0, n_failed = 0, entries = []\<rparr>"

datatype outcome = Skipped | Cancelled | Finished

text \<open>The \<open>try\<close>/\<open>catch\<close> of the loop body: fetch one symbol, count it.\<close>

definition fetchOne :: "world \<Rightarrow> string \<Rightarrow> run_state \<Rightarrow> run_state io" where
  "fetchOne w t l =
     io_catch
       (io_bind (fetchStockFundamentals w t)
          (\<lambda>d. io_return
             (l\<lparr>entries := (if yield d > 0 then entries l @ [d] else entries l),
                n_completed := Suc (n_completed l)\<rparr>)))
       (\<lambda>err. io_return (l\<lparr>n_failed := Suc (n_failed l)\<rparr>))"

text \<open>
  \<open>(JSON.parse((await redisClient.get(JOB_PROGRESS_KEY)) ?? '{}') as JobProgress).startedAt\<close>:
  of a missing key and of a JSON text without the field it is \<open>undefined\<close>; a raw
  string (a status word, the empty string) does not parse.
\<close>

definition startedAtOf :: "world \<Rightarrow> payload option \<Rightarrow> error + string option" where
  "startedAtOf w raw =
     (case raw of
        None \<Rightarrow> Inr None
      | Some p \<Rightarrow>
          (case p of
             Progress q \<Rightarrow> Inr (startedAt q)
           | Raw t \<Rightarrow> Inl (JsError ''SyntaxError'' (parseError w t))
           | _ \<Rightarrow> Inr None))"

text \<open>The progress write of the loop body, and the test that guards it.\<close>

definition checkpoint :: "world \<Rightarrow> nat \<Rightarrow> run_state \<Rightarrow> unit io" where
  "checkpoint w tot l =
     io_bind (redis_get JOB_PROGRESS_KEY)
       (\<lambda>raw.
          case startedAtOf w raw of
            Inl e \<Rightarrow> io_throw e
          | Inr sa \<Rightarrow>
              redis_set JOB_PROGRESS_KEY
                (Progress
                  \<lparr>completed = n_completed l,
                   total = Some tot,
                   startedAt = sa,
                   estimatedMinutes =
                     estimate w (int tot - int (n_completed l) - int (n_failed l))\<rparr>))"

definition iteration :: "world \<Rightarrow> nat \<Rightarrow> string \<Rightarrow> run_state \<Rightarrow> run_state io" where
  "iteration w tot t l =
     io_bind (fetchOne w t l)
       (\<lambda>l'. io_bind
          (if n_completed l' mod 50 = 0 \<or> n_completed l' = tot then checkpoint w tot l'
           else io_return ())
          (\<lambda>_. io_return l'))"

text \<open>
  Other clients of the store act while the job waits. \<open>ext i\<close> is the write to the
  status key, if any, that arrived since the job last read it and before the read of
  iteration \<open>i\<close> (\<open>cancelJob\<close> writes \<open>idle\<close>, the trigger route's handler \<open>failed\<close>).
  For \<open>i\<close> the number of symbols it is the write that arrived during the last
  iteration, after its read: the loop ends without reading the status again.
\<close>

definition interfere :: "(nat \<Rightarrow> payload option) \<Rightarrow> nat \<Rightarrow> unit io" where
  "interfere ext i s =
     (Inr (), case ext i of None \<Rightarrow> s | Some v \<Rightarrow> s\<lparr>kv := (kv s)(JOB_STATUS_KEY \<mapsto> v)\<rparr>)"

text \<open>The \<open>for\<close> loop over the tickers, from iteration \<open>i\<close> on.\<close>

fun loop ::
  "world \<Rightarrow> (nat \<Rightarrow> payload option) \<Rightarrow> nat \<Rightarrow> nat \<Rightarrow> string list \<Rightarrow> run_state
     \<Rightarrow> (outcome \<times> run_state) io" where
  "loop w ext tot i [] l s = (Inr (Finished, l), snd (interfere ext i s))"
| "loop w ext tot i (t # rest) l s =
     (case io_bind (interfere ext i) (\<lambda>_. redis_get JOB_STATUS_KEY) s of
        (Inl e, s1) \<Rightarrow> (Inl e, s1)
      | (Inr st, s1) \<Rightarrow>
          if st = Some (Raw ''running'') then
            (case iteration w tot t l s1 of
               (Inl e, s2) \<Rightarrow> (Inl e, s2)
             | (Inr l', s2) \<Rightarrow> loop w ext tot (Suc i) rest l' s2)
          else (Inr (Cancelled, l), s1))"

text \<open>
  The two writes that start a run. \<open>total\<close> is \<open>tickers.length\<close>; where that is
  \<open>undefined\<close> the record is written without it, and the estimate, NaN, as \<open>null\<close>.
\<close>

definition initialize :: "world \<Rightarrow> nat option \<Rightarrow> unit io" where
  "initialize w tot =
     io_bind (redis_set JOB_STATUS_KEY (Raw ''running''))
       (\<lambda>_. redis_set JOB_PROGRESS_KEY
          (Progress
            \<lparr>completed = 0,
             total = tot,
             startedAt = Some (now w),
             estimatedMinutes =
               (case tot of None \<Rightarrow> None | Some n \<Rightarrow> estimate w (int n))\<rparr>))"

text \<open>The \<open>for\<close> statement and what follows it: a value that is no array cannot be
  iterated.\<close>

definition walk ::
  "world \<Rightarrow> (nat \<Rightarrow> payload option) \<Rightarrow> string list option \<Rightarrow> (outcome \<times> run_state) io" where
  "walk w ext tickers =
     (case tickers of
        None \<Rightarrow> io_throw (JsError ''TypeError'' ''tickers is not iterable'')
      | Some ts \<Rightarrow>
          io_bind (loop w ext (length ts) 0 ts run_start)
            (\<lambda>r.
               if fst r = Cancelled then io_return r
               else
                 io_bind (redis_set SNAPSHOT_KEY (Snapshot (entries (snd r))))
                   (\<lambda>_. io_bind (redis_set JOB_STATUS_KEY (Raw ''idle''))
                     (\<lambda>_. io_return r))))"

definition runSnapshotJob :: "world \<Rightarrow> (nat \<Rightarrow> payload option) \<Rightarrow> (outcome \<times> run_state) io" where
  "runSnapshotJob w ext =
     io_bind (redis_get JOB_STATUS_KEY)
       (\<lambda>currentStatus.
          if currentStatus = Some (Raw ''running'') then io_return (Skipped, run_start)
          else
            io_bind (getAllTickers w)
              (\<lambda>tickers. io_bind (initialize w (map_option length tickers))
                (\<lambda>_. walk w ext tickers)))"

definition getJobStatus :: "payload io" where
  "getJobStatus =
     io_bind (redis_get JOB_STATUS_KEY)
       (\<lambda>v. io_return (case v of None \<Rightarrow> Raw ''idle'' | Some p \<Rightarrow> p))"

text \<open>
  \<open>getJobProgress\<close> and \<open>getSnapshot\<close>: \<open>raw ? JSON.parse(raw) : null\<close>, the
  parsed value passed on unchecked; a raw string that is not empty does not parse.
\<close>

definition parsed :: "world \<Rightarrow> payload option \<Rightarrow> payload option io" where
  "parsed w raw =
     (case raw of
        None \<Rightarrow> io_return None
      | Some p \<Rightarrow>
          (case p of
             Raw t \<Rightarrow>
               if t = [] then io_return None
               else io_throw (JsError ''SyntaxError'' (parseError w t))
           | _ \<Rightarrow> io_return (Some p)))"




text \<open>The progress records among the \<open>set\<close> commands of a log, in order.\<close>

definition checkpoints :: "(string \<times> payload) list \<Rightarrow> JobProgress list" where
  "checkpoints ws =
     List.map_filter
       (\<lambda>kp. if fst kp = JOB_PROGRESS_KEY
              then (case snd kp of Progress p \<Rightarrow> Some p | _ \<Rightarrow> None) else None)
       ws"

section \<open>A test world\<close>

text \<open>
  A configured process whose Alpha Vantage service knows the symbol AAA (sector
  Energy, dividend yield 0.04) and answers any other symbol with an error message.
\<close>

definition AAA_body :: AlphaVantageResponse where
  "AAA_body =
     \<lparr>Symbol = Some ''AAA'', Sector = Some ''Energy'', DividendYield = Some ''0.04'',
      Note = None, Error_Message = None\<rparr>"

definition unknown_body :: AlphaVantageResponse where
  "unknown_body =
     \<lparr>Symbol = None, Sector = None, DividendYield = None,
      Note = None, Error_Message = Some ''Invalid API call.''\<rparr>"

definition test_world :: world where
  "test_world =
     \<lparr>alphaVantageAPIKey = Some ''demo'',
      REQUESTS_PER_MINUTE = Some 60,
      overview = (\<lambda>n t. Responded
        \<lparr>status = 200, statusText = ''OK'', retryAfter = None,
         body = Inr (if t = ''AAA'' then AAA_body else unknown_body)\<rparr>),
      company_tickers = (\<lambda>n. Aborted),
      parseFloat = (\<lambda>t. if t = ''0.04'' then Some (4 / 100) else None),
      parseError = (\<lambda>t. ''Unexpected token '' @ take 1 t @ '' in JSON at position 0''),
      now = ''2026-01-01T00:00:00.000Z''\<rparr>"

definition AAA_record :: StockData where
  "AAA_record = \<lparr>ticker = ''AAA'', name = ''AAA'', sector = ''Energy'', yield = 4\<rparr>"

text \<open>A store that stays reachable; one that is never reachable; and one, holding the
  universe \<open>["AAA"]\<close>, that is lost after five commands: in the middle of a run, when
  the job comes to write its checkpoint.\<close>

definition store_of :: "(string \<rightharpoonup> payload) \<Rightarrow> sys" where
  "store_of m = \<lparr>link = (\<lambda>n. True), kv = m, calls = [], writes = [], refused = 0\<rparr>"



definition two_tickers :: sys where
  "two_tickers = store_of [''tickers'' \<mapsto> Tickers [''AAA'', ''BBB'']]"

definition AAA_cached :: sys where
  "AAA_cached = store_of [''tickers'' \<mapsto> Tickers [''AAA''], ''AAA'' \<mapsto> Stock AAA_record]"

text \<open>A service that answers every call with status 200 and a body that is not JSON,
  and one that answers the first call with status 503 and every later one so.\<close>

definition not_json :: "nat \<Rightarrow> AlphaVantageResponse fetched" where
  "not_json n =
     Responded
       \<lparr>status = 200, statusText = ''OK'', retryAfter = None,
        body = Inl ''Unexpected token < in JSON at position 0''\<rparr>"

definition not_json_after_503 :: "nat \<Rightarrow> AlphaVantageResponse fetched" where
  "not_json_after_503 n =
     (if n = 0 then
        Responded
          \<lparr>status = 503, statusText = ''Service Unavailable'', retryAfter = None,
           body = Inl ''Unexpected end of JSON input''\<rparr>
      else not_json n)"

text \<open>A cancel request that arrives while the job works on its first symbol.\<close>

definition cancel_at_1 :: "nat \<Rightarrow> payload option" where
  "cancel_at_1 i = (if i = 1 then Some (Raw ''idle'') else None)"

section \<open>Notions used in the statements and proofs\<close>

text \<open>A step that issues no command to the store: the store and the logs of its
  commands are as before.\<close>

definition same_store :: "sys \<Rightarrow> sys \<Rightarrow> bool" where
  "same_store s s' =
     (link s' = link s \<and> kv s' = kv s \<and> writes s' = writes s \<and> refused s' = refused s)"



text \<open>The snapshots among the \<open>set\<close> commands of a log.\<close>

definition snapshot_writes :: "(string \<times> payload) list \<Rightarrow> payload list" where
  "snapshot_writes ws = map snd (filter (\<lambda>kp. fst kp = SNAPSHOT_KEY) ws)"

text \<open>The progress key holds a progress record.\<close>

definition progress_kept :: "sys \<Rightarrow> bool" where
  "progress_kept s = (case kv s JOB_PROGRESS_KEY of Some (Progress p) \<Rightarrow> True | _ \<Rightarrow> False)"

text \<open>The loop invariant of the progress records written so far: their counts of
  completed symbols rise, stay below the current count \<open>c\<close>, and each carries the total.\<close>

definition progress_inv :: "nat \<Rightarrow> nat \<Rightarrow> (string \<times> payload) list \<Rightarrow> bool" where
  "progress_inv tot c ws =
     (sorted (map completed (checkpoints ws)) \<and>
      (\<forall>p \<in> set (checkpoints ws). completed p \<le> c \<and> total p = Some tot))"

section \<open>Lemmas\<close>

lemmas io_defs = io_return_def io_throw_def io_bind_def io_catch_def

lemmas client_defs =
  fetchWithRetry_def fetchWithTimeout_def classify_def rethrown_def json_def ok_def
  MAX_RETRIES_def

lemmas key_defs = JOB_STATUS_KEY_def JOB_PROGRESS_KEY_def SNAPSHOT_KEY_def

lemmas fixture_defs = test_world_def AAA_body_def unknown_body_def store_of_def AAA_record_def

lemma decimal_503: "decimal 503 = ''503''"
  by code_simp

subsection \<open>The sector table\<close>

lemma sector_total: "getSectorTranslation s \<in> set sectorLabels"
  by (simp add: getSectorTranslation_def sectorLabels_def Let_def)

lemma sector_of_label:
  "getSectorTranslation ''Manufacturing'' = ''Unknown''"
  "getSectorTranslation ''Services'' = ''Unknown''"
  "getSectorTranslation ''Agriculture'' = ''Unknown''"
  "getSectorTranslation ''Retail'' = ''Unknown''"
  "getSectorTranslation ''Property'' = ''Unknown''"
  "getSectorTranslation ''Energy'' = ''Energy''"
  "getSectorTranslation ''Unknown'' = ''Unknown''"
  by code_simp+

subsection \<open>The store\<close>

lemma up_link: "up s \<Longrightarrow> link s n"
  by (simp add: up_def)

lemma advance_up: "up s \<Longrightarrow> advance s = s"
proof -
  assume "up s"
  then have "(\<lambda>n. link s (Suc n)) = link s"
    by (auto simp: up_def)
  then show ?thesis
    by (simp add: advance_def)
qed

lemma advance_fields:
  "kv (advance s) = kv s" "calls (advance s) = calls s" "writes (advance s) = writes s"
  "refused (advance s) = refused s"
  by (simp_all add: advance_def)

lemma up_update:
  "up (s\<lparr>kv := m\<rparr>) = up s" "up (s\<lparr>calls := c\<rparr>) = up s" "up (s\<lparr>writes := ws\<rparr>) = up s"
  "up (s\<lparr>refused := r\<rparr>) = up s"
  by (simp_all add: up_def)

lemma up_same_store: "same_store s s' \<Longrightarrow> up s' = up s"
  by (simp add: same_store_def up_def)

text \<open>On a store that stays reachable the commands do what they say, and nothing else.\<close>

lemma redis_get_up: "up s \<Longrightarrow> redis_get k s = (Inr (kv s k), s)"
  by (simp add: redis_get_def up_link advance_up)

lemma redis_set_up:
  "up s \<Longrightarrow> redis_set k v s = (Inr (), s\<lparr>kv := (kv s)(k \<mapsto> v), writes := writes s @ [(k, v)]\<rparr>)"
  by (simp add: redis_set_def up_link advance_up)

text \<open>A command either is carried out or is refused, counted, and changes nothing.\<close>

lemma redis_get_cases:
  obtains "redis_get k s = (Inr (kv s k), advance s)"
  | "redis_get k s = (Inl Unavailable, (advance s)\<lparr>refused := Suc (refused s)\<rparr>)"
  by (cases "link s 0") (simp_all add: redis_get_def)

lemma redis_set_cases:
  obtains "redis_set k v s =
      (Inr (), (advance s)\<lparr>kv := (kv s)(k \<mapsto> v), writes := writes s @ [(k, v)]\<rparr>)"
  | "redis_set k v s = (Inl Unavailable, (advance s)\<lparr>refused := Suc (refused s)\<rparr>)"
  by (cases "link s 0") (simp_all add: redis_set_def)

subsection \<open>What the fetchers leave alone\<close>

text \<open>The HTTP client touches nothing of the state but the call log.\<close>

lemma same_store_refl: "same_store s s"
  by (simp add: same_store_def)

lemma same_store_trans: "same_store s s1 \<Longrightarrow> same_store s1 s2 \<Longrightarrow> same_store s s2"
  by (simp add: same_store_def)

lemma fetchWithTimeout_frame: "same_store s (snd (fetchWithTimeout ep u s))"
  by (simp add: fetchWithTimeout_def Let_def same_store_def split: fetched.splits)

lemma fetchWithRetry_from_frame: "same_store s (snd (fetchWithRetry_from ep u p m a le s))"
proof (induction ep u p m a le s rule: fetchWithRetry_from.induct)
  case (1 ep u p m a le s)
  show ?case
  proof (cases "a \<le> m")
    case False
    then show ?thesis
      by (subst fetchWithRetry_from.simps) (simp add: same_store_refl split: option.splits)
  next
    case True
    obtain r s' where f: "fetchWithTimeout ep u s = (r, s')"
      by (cases "fetchWithTimeout ep u s")
    then have s': "same_store s s'"
      using fetchWithTimeout_frame [of s ep u] by simp
    show ?thesis
      using True f s' "1.IH"
      by (subst fetchWithRetry_from.simps)
        (auto split: sum.splits attempt_end.splits intro: same_store_trans)
  qed
qed

lemma fetchStockFundamentals_frame: "same_store s (snd (fetchStockFundamentals w t s))"
proof (cases "truthy (alphaVantageAPIKey w)")
  case False
  then show ?thesis
    by (simp add: fetchStockFundamentals_def io_defs same_store_refl)
next
  case True
  obtain r s' where f:
    "fetchWithRetry_from (\<lambda>n. overview w n t) (Overview t) json MAX_RETRIES 0 None s = (r, s')"
    by (cases "fetchWithRetry_from (\<lambda>n. overview w n t) (Overview t) json MAX_RETRIES 0 None s")
  have "same_store s s'"
    using fetchWithRetry_from_frame
      [of s "\<lambda>n. overview w n t" "Overview t" json MAX_RETRIES 0 None] f
    by simp
  then show ?thesis
    using True f
    by (auto simp: fetchStockFundamentals_def fetchWithRetry_def io_defs
        split: sum.splits option.splits)
qed


text \<open>The \<open>try\<close>/\<open>catch\<close> of the loop body never throws, and counts the symbol once.\<close>

lemma fetchOne_cases:
  obtains d s' where
      "fetchStockFundamentals w t s = (Inr d, s')"
      "fetchOne w t l s =
         (Inr (l\<lparr>entries := (if yield d > 0 then entries l @ [d] else entries l),
                n_completed := Suc (n_completed l)\<rparr>), s')"
      "same_store s s'"
  | e s' where
      "fetchStockFundamentals w t s = (Inl e, s')"
      "fetchOne w t l s = (Inr (l\<lparr>n_failed := Suc (n_failed l)\<rparr>), s')"
      "same_store s s'"
proof -
  obtain r s' where f: "fetchStockFundamentals w t s = (r, s')"
    by (cases "fetchStockFundamentals w t s")
  have fr: "same_store s s'"
    using fetchStockFundamentals_frame [of s w t] f by simp
  show thesis
  proof (cases r)
    case (Inl e)
    then show ?thesis
      using that(2) [of e s'] f fr by (simp add: fetchOne_def io_defs)
  next
    case (Inr d)
    then show ?thesis
      using that(1) [of d s'] f fr by (simp add: fetchOne_def io_defs)
  qed
qed

lemma fetchOne_total:
  "\<exists>l' s'. fetchOne w t l s = (Inr l', s') \<and> same_store s s' \<and>
     n_completed l \<le> n_completed l' \<and> n_completed l' \<le> Suc (n_completed l)"
  by (rule fetchOne_cases [of w t s l]) auto

subsection \<open>The loop body and the loop\<close>

lemma checkpoints_Nil: "checkpoints [] = []"
  by (simp add: checkpoints_def map_filter_def)

lemma checkpoints_snoc:
  "checkpoints (ws @ [(k, v)]) =
     checkpoints ws @
       (if k = JOB_PROGRESS_KEY then (case v of Progress p \<Rightarrow> [p] | _ \<Rightarrow> []) else [])"
  by (simp add: checkpoints_def map_filter_def split: payload.splits)

text \<open>A checkpoint on a reachable store that holds a progress record: the new record
  carries the counts, the estimate for the symbols still to come, and the
  \<open>startedAt\<close> of the record it replaces.\<close>

lemma checkpoint_record:
  assumes "up s" and "kv s JOB_PROGRESS_KEY = Some (Progress q)"
  shows "checkpoint w tot l s =
     redis_set JOB_PROGRESS_KEY
       (Progress
         \<lparr>completed = n_completed l, total = Some tot, startedAt = startedAt q,
          estimatedMinutes =
            estimate w (int tot - int (n_completed l) - int (n_failed l))\<rparr>) s"
  using assms by (simp add: checkpoint_def io_defs redis_get_up startedAtOf_def)

text \<open>What a checkpoint writes, whatever the store does: nothing, or one progress
  record that carries the count of completed symbols.\<close>

lemma checkpoint_writes:
  assumes "checkpoint w tot l s = (r, s')"
  shows "writes s' = writes s \<or>
     (r = Inr () \<and>
      (\<exists>p. writes s' = writes s @ [(JOB_PROGRESS_KEY, Progress p)] \<and>
         completed p = n_completed l \<and> total p = Some tot))"
proof (rule redis_get_cases [of JOB_PROGRESS_KEY s])
  assume "redis_get JOB_PROGRESS_KEY s =
      (Inl Unavailable, (advance s)\<lparr>refused := Suc (refused s)\<rparr>)"
  then show ?thesis
    using assms by (auto simp: checkpoint_def io_defs advance_fields)
next
  assume g: "redis_get JOB_PROGRESS_KEY s = (Inr (kv s JOB_PROGRESS_KEY), advance s)"
  show ?thesis
  proof (cases "startedAtOf w (kv s JOB_PROGRESS_KEY)")
    case (Inl e)
    then show ?thesis
      using assms g by (auto simp: checkpoint_def io_defs advance_fields)
  next
    case (Inr sa)
    then have c: "checkpoint w tot l s =
        redis_set JOB_PROGRESS_KEY
          (Progress
            \<lparr>completed = n_completed l, total = Some tot, startedAt = sa,
             estimatedMinutes =
               estimate w (int tot - int (n_completed l) - int (n_failed l))\<rparr>) (advance s)"
      using g by (simp add: checkpoint_def io_defs)
    show ?thesis
      using assms unfolding c
      by (cases "link (advance s) 0") (auto simp: redis_set_def advance_fields)
  qed
qed

text \<open>What one pass of the loop body writes.\<close>

lemma iteration_writes:
  assumes "iteration w tot t l s = (r, s')"
  shows "(\<exists>e. r = Inl e) \<and> writes s' = writes s \<or>
     (\<exists>l'. r = Inr l' \<and> n_completed l \<le> n_completed l' \<and>
        n_completed l' \<le> Suc (n_completed l) \<and>
        (writes s' = writes s \<or>
         (\<exists>p. writes s' = writes s @ [(JOB_PROGRESS_KEY, Progress p)] \<and>
            completed p = n_completed l' \<and> total p = Some tot)))"
proof -
  obtain l1 s1 where f: "fetchOne w t l s = (Inr l1, s1)" "same_store s s1"
    "n_completed l \<le> n_completed l1" "n_completed l1 \<le> Suc (n_completed l)"
    using fetchOne_total [of w t l s] by blast
  have ws: "writes s1 = writes s"
    using f(2) by (simp add: same_store_def)
  show ?thesis
  proof (cases "n_completed l1 mod 50 = 0 \<or> n_completed l1 = tot")
    case False
    then show ?thesis
      using assms f ws by (auto simp: iteration_def io_defs)
  next
    case True
    obtain rc s2 where c: "checkpoint w tot l1 s1 = (rc, s2)"
      by (cases "checkpoint w tot l1 s1")
    have it: "iteration w tot t l s =
        (case rc of Inl e \<Rightarrow> (Inl e, s2) | Inr x \<Rightarrow> (Inr l1, s2))"
      using True f c by (auto simp: iteration_def io_defs split: sum.splits)
    show ?thesis
      using assms f(3,4) ws checkpoint_writes [OF c] unfolding it
      by (cases rc) auto
  qed
qed

lemma progress_inv_mono: "progress_inv tot c ws \<Longrightarrow> c \<le> c' \<Longrightarrow> progress_inv tot c' ws"
  by (auto simp: progress_inv_def)

lemma progress_inv_snoc:
  "progress_inv tot c ws \<Longrightarrow> c \<le> completed p \<Longrightarrow> total p = Some tot \<Longrightarrow>
     progress_inv tot (completed p) (ws @ [(JOB_PROGRESS_KEY, Progress p)])"
  by (auto simp: progress_inv_def checkpoints_snoc sorted_append)

lemma progress_inv_other:
  "progress_inv tot c ws \<Longrightarrow> k \<noteq> JOB_PROGRESS_KEY \<Longrightarrow> progress_inv tot c (ws @ [(k, v)])"
  by (simp add: progress_inv_def checkpoints_snoc)

text \<open>Interference changes the status key, and nothing else.\<close>

lemma interfere_frame:
  "fst (interfere ext i s) = Inr ()"
  "writes (snd (interfere ext i s)) = writes s"
  "calls (snd (interfere ext i s)) = calls s"
  "link (snd (interfere ext i s)) = link s"
  "refused (snd (interfere ext i s)) = refused s"
  "k \<noteq> JOB_STATUS_KEY \<Longrightarrow> kv (snd (interfere ext i s)) k = kv s k"
  by (simp_all add: interfere_def split: option.splits)

lemma interfere_up: "up (snd (interfere ext i s)) = up s"
  by (simp add: up_def interfere_frame)

lemma loop_Nil: "loop w ext tot i [] l s = (Inr (Finished, l), snd (interfere ext i s))"
  by simp

lemma loop_Cons:
  assumes "interfere ext i s = (Inr (), s1)"
  shows "loop w ext tot i (t # rest) l s =
     (case redis_get JOB_STATUS_KEY s1 of
        (Inl e, s2) \<Rightarrow> (Inl e, s2)
      | (Inr st, s2) \<Rightarrow>
          if st = Some (Raw ''running'') then
            (case iteration w tot t l s2 of
               (Inl e, s3) \<Rightarrow> (Inl e, s3)
             | (Inr l', s3) \<Rightarrow> loop w ext tot (Suc i) rest l' s3)
          else (Inr (Cancelled, l), s2))"
  using assms by (simp add: io_bind_def)

lemma loop_Cons_up:
  assumes "interfere ext i s = (Inr (), s1)" and "up s1"
  shows "loop w ext tot i (t # rest) l s =
     (if kv s1 JOB_STATUS_KEY = Some (Raw ''running'') then
        (case iteration w tot t l s1 of
           (Inl e, s2) \<Rightarrow> (Inl e, s2)
         | (Inr l', s2) \<Rightarrow> loop w ext tot (Suc i) rest l' s2)
      else (Inr (Cancelled, l), s1))"
  by (simp add: loop_Cons [OF assms(1)] redis_get_up [OF assms(2)] del: loop.simps)

text \<open>The cancellation check: when the status read at the top of an iteration is not
  \<open>running\<close>, the loop returns there, with the state as the read found it.\<close>

lemma loop_stops_at_check:
  assumes "interfere ext i s = (Inr (), s1)" and "up s1"
    and "kv s1 JOB_STATUS_KEY \<noteq> Some (Raw ''running'')"
  shows "loop w ext tot i (t # rest) l s = (Inr (Cancelled, l), s1)"
  using assms(3) by (simp add: loop_Cons_up [OF assms(1,2)] del: loop.simps)

lemma loop_progress_inv:
  "progress_inv tot (n_completed l) (writes s) \<Longrightarrow> n_completed l + length ts \<le> tot \<Longrightarrow>
     progress_inv tot tot (writes (snd (loop w ext tot i ts l s)))"
proof (induction ts arbitrary: i l s)
  case Nil
  then show ?case
    using progress_inv_mono [of tot "n_completed l" "writes s" tot]
    by (simp add: interfere_frame)
next
  case (Cons t rest)
  define s1 where "s1 = snd (interfere ext i s)"
  have s1: "interfere ext i s = (Inr (), s1)" "writes s1 = writes s"
    using interfere_frame(1,2) [of ext i s] by (simp_all add: s1_def prod_eq_iff)
  obtain rs s2 where g: "redis_get JOB_STATUS_KEY s1 = (rs, s2)"
    by (cases "redis_get JOB_STATUS_KEY s1")
  have s2: "writes s2 = writes s"
    using g s1(2) by (rule_tac redis_get_cases [of JOB_STATUS_KEY s1]) (auto simp: advance_fields)
  have unf: "loop w ext tot i (t # rest) l s =
     (case rs of
        Inl e \<Rightarrow> (Inl e, s2)
      | Inr st \<Rightarrow>
          if st = Some (Raw ''running'') then
            (case iteration w tot t l s2 of
               (Inl e, s3) \<Rightarrow> (Inl e, s3)
             | (Inr l', s3) \<Rightarrow> loop w ext tot (Suc i) rest l' s3)
          else (Inr (Cancelled, l), s2))"
    using g by (simp add: loop_Cons [OF s1(1)] del: loop.simps split: sum.splits)
  have base: "progress_inv tot tot (writes s2)"
    using Cons.prems s2 progress_inv_mono [of tot "n_completed l" "writes s" tot] by simp
  show ?case
  proof (cases "rs = Inr (Some (Raw ''running''))")
    case False
    then show ?thesis
      unfolding unf using base by (cases rs) auto
  next
    case True
    obtain r s3 where it: "iteration w tot t l s2 = (r, s3)"
      by (cases "iteration w tot t l s2")
    note iw = iteration_writes [OF it]
    show ?thesis
    proof (cases r)
      case (Inl e)
      then have "writes s3 = writes s2" using iw by auto
      then show ?thesis
        unfolding unf using True base it Inl by simp
    next
      case (Inr l')
      then have l': "n_completed l \<le> n_completed l'" "n_completed l' \<le> Suc (n_completed l)"
        and w: "writes s3 = writes s2 \<or>
           (\<exists>p. writes s3 = writes s2 @ [(JOB_PROGRESS_KEY, Progress p)] \<and>
              completed p = n_completed l' \<and> total p = Some tot)"
        using iw by auto
      have "progress_inv tot (n_completed l') (writes s3)"
        using w
      proof
        assume "writes s3 = writes s2"
        then show ?thesis
          using Cons.prems(1) s2 l'
            progress_inv_mono [of tot "n_completed l" "writes s" "n_completed l'"]
          by simp
      next
        assume "\<exists>p. writes s3 = writes s2 @ [(JOB_PROGRESS_KEY, Progress p)] \<and>
              completed p = n_completed l' \<and> total p = Some tot"
        then obtain p where p: "writes s3 = writes s2 @ [(JOB_PROGRESS_KEY, Progress p)]"
          "completed p = n_completed l'" "total p = Some tot"
          by blast
        show ?thesis
          using progress_inv_snoc [of tot "n_completed l" "writes s2" p] Cons.prems(1) s2 l' p
          by simp
      qed
      moreover have "n_completed l' + length rest \<le> tot"
        using Cons.prems(2) l' by simp
      ultimately have "progress_inv tot tot (writes (snd (loop w ext tot (Suc i) rest l' s3)))"
        by (rule Cons.IH)
      then show ?thesis
        unfolding unf using True it Inr by simp
    qed
  qed
qed

lemma progress_kept_iff: "progress_kept s = (\<exists>p. kv s JOB_PROGRESS_KEY = Some (Progress p))"
  by (auto simp: progress_kept_def split: option.splits payload.splits)

text \<open>With the store up and a progress record in place, one pass of the loop body
  resolves; it leaves the snapshot key alone.\<close>

lemma iteration_total:
  assumes "up s" "progress_kept s"
  shows "\<exists>l' s'. iteration w tot t l s = (Inr l', s') \<and> up s' \<and> progress_kept s' \<and>
     kv s' SNAPSHOT_KEY = kv s SNAPSHOT_KEY \<and>
     snapshot_writes (writes s') = snapshot_writes (writes s)"
proof -
  obtain l1 s1 where f: "fetchOne w t l s = (Inr l1, s1)" "same_store s s1"
    using fetchOne_total [of w t l s] by blast
  have s1: "up s1" "kv s1 = kv s" "writes s1 = writes s"
    using f(2) assms(1) up_same_store [OF f(2)] by (simp_all add: same_store_def)
  obtain p where p: "kv s JOB_PROGRESS_KEY = Some (Progress p)"
    using assms(2) by (auto simp: progress_kept_iff)
  show ?thesis
  proof (cases "n_completed l1 mod 50 = 0 \<or> n_completed l1 = tot")
    case False
    then show ?thesis
      using assms f(1) s1 by (auto simp: iteration_def io_defs progress_kept_def)
  next
    case True
    then have it: "iteration w tot t l s =
        (case checkpoint w tot l1 s1 of (Inl e, s2) \<Rightarrow> (Inl e, s2) | (Inr x, s2) \<Rightarrow> (Inr l1, s2))"
      using f(1) by (auto simp: iteration_def io_defs split: prod.splits sum.splits)
    have c: "checkpoint w tot l1 s1 =
        (Inr (),
         s1\<lparr>kv := (kv s1)(JOB_PROGRESS_KEY \<mapsto> Progress
               \<lparr>completed = n_completed l1, total = Some tot, startedAt = startedAt p,
                estimatedMinutes =
                  estimate w (int tot - int (n_completed l1) - int (n_failed l1))\<rparr>),
            writes := writes s1 @ [(JOB_PROGRESS_KEY, Progress
               \<lparr>completed = n_completed l1, total = Some tot, startedAt = startedAt p,
                estimatedMinutes =
                  estimate w (int tot - int (n_completed l1) - int (n_failed l1))\<rparr>)]\<rparr>)"
      using s1 p by (simp add: checkpoint_record [of s1 p] redis_set_up)
    show ?thesis
      unfolding it c using s1
      by (simp add: up_update progress_kept_def snapshot_writes_def key_defs)
  qed
qed

lemma loop_cancel:
  assumes "ext k = Some v" "v \<noteq> Raw ''running''"
  shows "up s \<Longrightarrow> progress_kept s \<Longrightarrow> i \<le> k \<Longrightarrow> k < i + length ts \<Longrightarrow>
    \<exists>l' s'. loop w ext tot i ts l s = (Inr (Cancelled, l'), s') \<and>
       calls s' = calls (snd (loop w ext tot i (take (k - i) ts) l s)) \<and>
       kv s' SNAPSHOT_KEY = kv s SNAPSHOT_KEY \<and>
       snapshot_writes (writes s') = snapshot_writes (writes s)"
proof (induction ts arbitrary: i l s)
  case Nil
  then show ?case by simp
next
  case (Cons t rest)
  define s1 where "s1 = snd (interfere ext i s)"
  have s1: "interfere ext i s = (Inr (), s1)"
    by (simp add: s1_def interfere_def)
  have fr: "up s1" "progress_kept s1" "calls s1 = calls s" "writes s1 = writes s"
    "kv s1 SNAPSHOT_KEY = kv s SNAPSHOT_KEY"
    using Cons.prems(1,2)
    by (simp_all add: s1_def interfere_up interfere_frame progress_kept_def key_defs)
  note unf = loop_Cons_up [OF s1 fr(1), of w tot t _ l]
  show ?case
  proof (cases "i = k")
    case True
    then have "kv s1 JOB_STATUS_KEY = Some v"
      using assms(1) by (simp add: s1_def interfere_def)
    then have "loop w ext tot i (t # rest) l s = (Inr (Cancelled, l), s1)"
      using loop_stops_at_check [OF s1 fr(1), of w tot t rest l] assms(2) by simp
    moreover have "snd (loop w ext tot i (take (k - i) (t # rest)) l s) = s1"
      using True by (simp add: s1_def)
    ultimately show ?thesis
      using fr by simp
  next
    case False
    then have lt: "i < k" using Cons.prems(3) by simp
    then have "k - i = Suc (k - Suc i)" by simp
    then have tk: "take (k - i) (t # rest) = t # take (k - Suc i) rest"
      by simp
    show ?thesis
    proof (cases "kv s1 JOB_STATUS_KEY = Some (Raw ''running'')")
      case False
      then show ?thesis
        unfolding tk unf using fr by simp
    next
      case True
      obtain l' s2 where it: "iteration w tot t l s1 = (Inr l', s2)" "up s2" "progress_kept s2"
        "kv s2 SNAPSHOT_KEY = kv s1 SNAPSHOT_KEY"
        "snapshot_writes (writes s2) = snapshot_writes (writes s1)"
        using iteration_total [OF fr(1,2), of w tot t l] by blast
      have "\<exists>l'' s'. loop w ext tot (Suc i) rest l' s2 = (Inr (Cancelled, l''), s') \<and>
         calls s' = calls (snd (loop w ext tot (Suc i) (take (k - Suc i) rest) l' s2)) \<and>
         kv s' SNAPSHOT_KEY = kv s2 SNAPSHOT_KEY \<and>
         snapshot_writes (writes s') = snapshot_writes (writes s2)"
        using Cons.IH [OF it(2,3), of "Suc i" l'] lt Cons.prems(4) by simp
      then show ?thesis
        unfolding tk unf using True fr it by simp
    qed
  qed
qed

subsection \<open>The start of a run\<close>

lemma getAllTickers_cached:
  "up s \<Longrightarrow> kv s ''tickers'' = Some (Tickers ts) \<Longrightarrow> getAllTickers w s = (Inr (Some ts), s)"
  by (simp add: getAllTickers_def io_defs redis_get_up)

lemma getAllTickers_writes: "writes (snd (getAllTickers w s)) = writes s"
  by (rule redis_get_cases [of "''tickers''" s])
    (simp_all add: getAllTickers_def io_defs advance_fields
      split: option.splits payload.splits)

lemma initialize_up:
  "up s \<Longrightarrow> initialize w (Some tot) s =
     (Inr (),
      s\<lparr>kv := (kv s)(JOB_STATUS_KEY \<mapsto> Raw ''running'',
             JOB_PROGRESS_KEY \<mapsto> Progress \<lparr>completed = 0, total = Some tot,
               startedAt = Some (now w), estimatedMinutes = estimate w (int tot)\<rparr>),
        writes := writes s @
          [(JOB_STATUS_KEY, Raw ''running''),
           (JOB_PROGRESS_KEY, Progress \<lparr>completed = 0, total = Some tot,
               startedAt = Some (now w), estimatedMinutes = estimate w (int tot)\<rparr>)]\<rparr>)"
  by (simp add: initialize_def io_defs redis_set_up up_update)

lemma runSnapshotJob_started:
  assumes "up s" "kv s JOB_STATUS_KEY \<noteq> Some (Raw ''running'')"
    "kv s ''tickers'' = Some (Tickers ts)"
  shows "runSnapshotJob w ext s =
     (case loop w ext (length ts) 0 ts run_start (snd (initialize w (Some (length ts)) s)) of
        (Inl e, s3) \<Rightarrow> (Inl e, s3)
      | (Inr r, s3) \<Rightarrow>
          if fst r = Cancelled then (Inr r, s3)
          else io_bind (redis_set SNAPSHOT_KEY (Snapshot (entries (snd r))))
                 (\<lambda>_. io_bind (redis_set JOB_STATUS_KEY (Raw ''idle''))
                   (\<lambda>_. io_return r)) s3)"
  using assms
  by (simp add: runSnapshotJob_def walk_def io_bind_def [of "redis_get JOB_STATUS_KEY"]
      io_bind_def [of "getAllTickers w"] io_bind_def [of "initialize w (Some (length ts))"]
      io_bind_def [of "loop w ext (length ts) 0 ts run_start"]
      redis_get_up getAllTickers_cached initialize_up io_return_def
      split: prod.splits sum.splits)

subsection \<open>The test world\<close>

lemma fetch_AAA:
  "fetchStockFundamentals test_world ''AAA'' s =
     (Inr AAA_record, s\<lparr>calls := calls s @ [Overview ''AAA'']\<rparr>)"
  apply (simp add: fetchStockFundamentals_def io_defs client_defs fixture_defs truthy_def)
  apply code_simp
  done

lemma fetch_BBB:
  "fetchStockFundamentals test_world ''BBB'' s =
     (Inl (ValidationError ''Invalid ticker symbol: BBB''),
      s\<lparr>calls := calls s @ [Overview ''BBB'']\<rparr>)"
  by (simp add: fetchStockFundamentals_def io_defs client_defs fixture_defs truthy_def)

lemma estimate_test_world: "estimate test_world 2 = Some 1" "estimate test_world 1 = Some 1"
  "estimate test_world 0 = Some 0"
  by (simp_all add: estimate_def test_world_def ceiling_eq_iff)

lemmas run_defs =
  runSnapshotJob_def walk_def initialize_def iteration_def checkpoint_def fetchOne_def
  interfere_def getAllTickers_def startedAtOf_def redis_get_def redis_set_def advance_def
  run_start_def

lemma run_two_tickers:
  "runSnapshotJob test_world (\<lambda>i. None) two_tickers =
     (Inr (Finished, \<lparr>n_completed = 1, n_failed = 1, entries = [AAA_record]\<rparr>),
      \<lparr>link = (\<lambda>n. True),
       kv = [''tickers'' \<mapsto> Tickers [''AAA'', ''BBB''],
             JOB_STATUS_KEY \<mapsto> Raw ''idle'',
             JOB_PROGRESS_KEY \<mapsto> Progress \<lparr>completed = 0, total = Some 2,
               startedAt = Some ''2026-01-01T00:00:00.000Z'', estimatedMinutes = Some 1\<rparr>,
             SNAPSHOT_KEY \<mapsto> Snapshot [AAA_record]],
       calls = [Overview ''AAA'', Overview ''BBB''],
       writes = [(JOB_STATUS_KEY, Raw ''running''),
                 (JOB_PROGRESS_KEY, Progress \<lparr>completed = 0, total = Some 2,
                    startedAt = Some ''2026-01-01T00:00:00.000Z'', estimatedMinutes = Some 1\<rparr>),
                 (SNAPSHOT_KEY, Snapshot [AAA_record]),
                 (JOB_STATUS_KEY, Raw ''idle'')],
       refused = 0\<rparr>)"
  apply (simp add: run_defs io_defs fetch_AAA fetch_BBB two_tickers_def store_of_def key_defs
      estimate_test_world)
  apply (simp add: test_world_def AAA_record_def)
  apply (auto simp: fun_eq_iff)
  done

lemma first_iteration_calls:
  "calls (snd (loop test_world cancel_at_1 2 0 [''AAA''] run_start
     (snd (initialize test_world (Some 2) two_tickers)))) = [Overview ''AAA'']"
  by (simp add: initialize_def iteration_def checkpoint_def fetchOne_def
      interfere_def startedAtOf_def redis_get_def redis_set_def advance_def run_start_def
      io_defs fetch_AAA two_tickers_def store_of_def key_defs cancel_at_1_def)

text \<open>The run over \<open>["AAA"]\<close> with AAA cached, undisturbed.\<close>

lemma run_AAA_cached:
  "fst (runSnapshotJob test_world (\<lambda>i. None) AAA_cached) =
     Inr (Finished, \<lparr>n_completed = 1, n_failed = 0, entries = [AAA_record]\<rparr>)"
  "calls (snd (runSnapshotJob test_world (\<lambda>i. None) AAA_cached)) = [Overview ''AAA'']"
  "writes (snd (runSnapshotJob test_world (\<lambda>i. None) AAA_cached)) =
     [(JOB_STATUS_KEY, Raw ''running''),
      (JOB_PROGRESS_KEY, Progress \<lparr>completed = 0, total = Some 1,
         startedAt = Some ''2026-01-01T00:00:00.000Z'', estimatedMinutes = Some 1\<rparr>),
      (JOB_PROGRESS_KEY, Progress \<lparr>completed = 1, total = Some 1,
         startedAt = Some ''2026-01-01T00:00:00.000Z'', estimatedMinutes = Some 0\<rparr>),
      (SNAPSHOT_KEY, Snapshot [AAA_record]),
      (JOB_STATUS_KEY, Raw ''idle'')]"
  by (simp_all add: run_defs io_defs fetch_AAA AAA_cached_def store_of_def key_defs
      estimate_test_world AAA_record_def)
    (simp_all add: test_world_def)

subsection \<open>Refusals of the store\<close>


























section \<open>The resilient HTTP client\<close>

text \<open>
  C5. With \<open>maxRetries = 3\<close>, a service that answers every attempt with status 503
  is called exactly four times (the call log grows by four calls of the URL), and the
  call then fails with a \<open>NetworkError\<close>, whatever the parser and the state are.
\<close>

theorem retry_budget_503:
  assumes "\<And>n. status (rs n) = 503"
  shows "fetchWithRetry (\<lambda>n. Responded (rs n)) u parseResponse 3 s =
     (Inl (NetworkError ''Server error: 503''), s\<lparr>calls := calls s @ [u, u, u, u]\<rparr>)"
  using assms
  by (simp add: fetchWithRetry_def fetchWithTimeout_def classify_def rethrown_def Let_def
      decimal_503 del: decimal.simps)

theorem retry_budget_503_witness:
  "fetchWithRetry
     (\<lambda>n. Responded (\<lparr>status = 503, statusText = ''Service Unavailable'', retryAfter = None,
        body = (Inl ''no body'' :: string + AlphaVantageResponse)\<rparr>))
     (Overview ''AAA'') json 3 (store_of Map.empty) =
     (Inl (NetworkError ''Server error: 503''),
      (store_of Map.empty)\<lparr>calls := calls (store_of Map.empty) @
         [Overview ''AAA'', Overview ''AAA'', Overview ''AAA'', Overview ''AAA'']\<rparr>)"
  by (rule retry_budget_503) simp

text \<open>
  C6, as stated, fails: a 200 response whose body is not JSON makes \<open>res.json()\<close>
  throw a \<open>SyntaxError\<close>; the \<open>catch\<close> block throws it on as it is, because its
  name is not \<open>NetworkError\<close>. The call fails after one attempt, with the
  \<open>SyntaxError\<close> and not with a \<open>NetworkError\<close>.
\<close>

theorem parse_failure_counterexample:
  "fetchWithRetry not_json (Overview ''AAA'') json 3 (store_of Map.empty) =
     (Inl (JsError ''SyntaxError'' ''Unexpected token < in JSON at position 0''),
      \<lparr>link = (\<lambda>n. True), kv = Map.empty, calls = [Overview ''AAA''], writes = [],
       refused = 0\<rparr>)"
  by (simp add: client_defs not_json_def store_of_def Let_def)

text \<open>
  C6, amended. When the client receives, at whatever attempt of the call (the first,
  or one that follows retries), a 2xx response whose body fails to parse, the call fails
  with the parser's own error and is not retried further: the call that received the
  response is the last one made. For \<open>res.json()\<close> that error is a \<open>SyntaxError\<close>,
  not a Network error. (The \<open>catch\<close> block takes an error for a network failure by
  its name \<open>NetworkError\<close> or its message \<open>Request timeout\<close>; the parser's error is
  to carry neither.)
\<close>

theorem parse_failure_not_retried:
  assumes "attempt \<le> maxRetries"
    and "endpoint (length (calls s)) = Responded r" and "ok r"
    and "parseResponse r = Inl e"
    and "error_name e \<noteq> ''NetworkError''" and "error_message e \<noteq> ''Request timeout''"
  shows "fetchWithRetry_from endpoint u parseResponse maxRetries attempt lastError s =
     (Inl e, s\<lparr>calls := calls s @ [u]\<rparr>)"
proof -
  have "rethrown e"
    using assms(5,6) by (cases e) (simp_all add: rethrown_def)
  moreover have "classify parseResponse maxRetries attempt r = Throw e"
    using assms(3,4) by (simp add: classify_def ok_def)
  ultimately show ?thesis
    using assms(1,2)
    by (subst fetchWithRetry_from.simps) (simp add: fetchWithTimeout_def Let_def)
qed

theorem parse_failure_not_retried_witness:
  "fetchWithRetry not_json_after_503 (Overview ''AAA'') json 3 (store_of Map.empty) =
     (Inl (JsError ''SyntaxError'' ''Unexpected token < in JSON at position 0''),
      (store_of Map.empty)\<lparr>calls := [Overview ''AAA'', Overview ''AAA'']\<rparr>)"
proof -
  define s1 where "s1 = (store_of Map.empty)\<lparr>calls := [Overview ''AAA'']\<rparr>"
  have first: "fetchWithRetry not_json_after_503 (Overview ''AAA'') json 3 (store_of Map.empty) =
      fetchWithRetry_from not_json_after_503 (Overview ''AAA'') json 3 1 None s1"
    unfolding fetchWithRetry_def
    by (subst fetchWithRetry_from.simps)
      (simp add: fetchWithTimeout_def classify_def not_json_after_503_def store_of_def
        s1_def Let_def del: fetchWithRetry_from.simps)
  have "fetchWithRetry_from not_json_after_503 (Overview ''AAA'') json 3 1 None s1 =
      (Inl (JsError ''SyntaxError'' ''Unexpected token < in JSON at position 0''),
       s1\<lparr>calls := calls s1 @ [Overview ''AAA'']\<rparr>)"
    by (rule parse_failure_not_retried [where r = "\<lparr>status = 200, statusText = ''OK'',
        retryAfter = None, body = Inl ''Unexpected token < in JSON at position 0''\<rparr>"])
      (simp_all add: s1_def not_json_after_503_def not_json_def ok_def json_def)
  then show ?thesis
    unfolding first by (simp add: s1_def)
qed

section \<open>The sector mapping\<close>

text \<open>
  C7, as stated, fails: the mapping is not idempotent. \<open>"technology"\<close> maps to
  \<open>"Manufacturing"\<close>, which is no key of the table and maps to \<open>"Unknown"\<close>.
\<close>

theorem sector_not_idempotent_counterexample:
  "getSectorTranslation ''technology'' = ''Manufacturing'' \<and>
   getSectorTranslation (getSectorTranslation ''technology'') = ''Unknown''"
  by code_simp

text \<open>
  C7, amended. The mapping is total: every input string, unknown strings and case
  variants included, maps to one of the six labels or to \<open>"Unknown"\<close>. Applied to its
  own output it yields \<open>"Energy"\<close> for \<open>"Energy"\<close> and \<open>"Unknown"\<close> for every
  other output.
\<close>

theorem sector_total_stable:
  "getSectorTranslation s \<in> set sectorLabels \<and>
   getSectorTranslation (getSectorTranslation s) =
     (if getSectorTranslation s = ''Energy'' then ''Energy'' else ''Unknown'')"
proof -
  have m: "getSectorTranslation s \<in> set sectorLabels"
    by (rule sector_total)
  then consider "getSectorTranslation s = ''Manufacturing''"
    | "getSectorTranslation s = ''Services''"
    | "getSectorTranslation s = ''Agriculture''"
    | "getSectorTranslation s = ''Retail''"
    | "getSectorTranslation s = ''Property''"
    | "getSectorTranslation s = ''Energy''"
    | "getSectorTranslation s = ''Unknown''"
    by (auto simp: sectorLabels_def)
  then have "getSectorTranslation (getSectorTranslation s) =
     (if getSectorTranslation s = ''Energy'' then ''Energy'' else ''Unknown'')"
    by cases (simp_all add: sector_of_label)
  with m show ?thesis by simp
qed

section \<open>The cache and its callers\<close>




text \<open>
  C10. In every state of a reachable store in which the job-status key holds nothing,
  \<open>getJobStatus\<close> resolves to \<open>idle\<close>, and leaves the state as it is.
\<close>

theorem getJobStatus_default_idle:
  assumes "up s" and "kv s JOB_STATUS_KEY = None"
  shows "getJobStatus s = (Inr (Raw ''idle''), s)"
  using assms by (simp add: getJobStatus_def io_defs redis_get_up)

theorem getJobStatus_default_idle_witness:
  "getJobStatus two_tickers = (Inr (Raw ''idle''), two_tickers)"
  by (rule getJobStatus_default_idle)
    (simp_all add: two_tickers_def store_of_def key_defs up_def)

section \<open>The snapshot job\<close>

text \<open>
  C1 fails on the code. The job calls \<open>fetchStockFundamentals\<close>, which reads no
  cache: run over the universe \<open>["AAA"]\<close> with the record of AAA cached, the job issues
  the HTTP call for AAA all the same, while the read-through path \<open>fetcher\<close> answers
  the same symbol from the cache with no call at all.
\<close>

theorem job_refetches_cached_symbol:
  "calls (snd (runSnapshotJob test_world (\<lambda>i. None) AAA_cached)) = [Overview ''AAA''] \<and>
   fetcher test_world ''AAA'' AAA_cached = (Inr (Stock AAA_record), AAA_cached)"
proof -
  have "calls (snd (runSnapshotJob test_world (\<lambda>i. None) AAA_cached)) = [Overview ''AAA'']"
    by (rule run_AAA_cached)
  moreover have "fetcher test_world ''AAA'' AAA_cached = (Inr (Stock AAA_record), AAA_cached)"
    by (simp add: fetcher_def io_defs redis_get_def advance_def AAA_cached_def store_of_def)
  ultimately show ?thesis by simp
qed

text \<open>
  C2, as stated, fails: in the test world fetching AAA succeeds with yield 4 and
  fetching BBB fails with a \<open>ValidationError\<close>, the run over \<open>["AAA","BBB"]\<close>
  finishes with one symbol completed and one failed, and the progress record left in
  the store shows \<open>completed = 0\<close>, not 2.
\<close>

theorem scenario_progress_counterexample:
  "fst (fetchStockFundamentals test_world ''AAA'' two_tickers) = Inr AAA_record \<and>
   yield AAA_record = 4 \<and>
   fst (fetchStockFundamentals test_world ''BBB'' two_tickers) =
     Inl (ValidationError ''Invalid ticker symbol: BBB'') \<and>
   fst (runSnapshotJob test_world (\<lambda>i. None) two_tickers) =
     Inr (Finished, \<lparr>n_completed = 1, n_failed = 1, entries = [AAA_record]\<rparr>) \<and>
   kv (snd (runSnapshotJob test_world (\<lambda>i. None) two_tickers)) JOB_PROGRESS_KEY =
     Some (Progress \<lparr>completed = 0, total = Some 2,
       startedAt = Some ''2026-01-01T00:00:00.000Z'', estimatedMinutes = Some 1\<rparr>)"
  by (simp add: fetch_AAA fetch_BBB run_two_tickers key_defs) (simp add: AAA_record_def)

text \<open>
  C2, amended. For a run over the universe \<open>["AAA","BBB"]\<close>, with a reachable store,
  no job running and no interference, in which fetching AAA succeeds with yield 4 and
  fetching BBB fails with a \<open>ValidationError\<close>: the run terminates, the persisted
  snapshot is exactly the record of AAA, the job status is \<open>idle\<close>, and the run's
  counters end at one completed and one failed symbol (a failed fetch is not counted as
  completed).
\<close>

theorem scenario_AAA_BBB:
  assumes "up s" and "kv s ''tickers'' = Some (Tickers [''AAA'', ''BBB''])"
    and "kv s JOB_STATUS_KEY \<noteq> Some (Raw ''running'')"
    and "\<And>s'. fst (fetchStockFundamentals w ''AAA'' s') = Inr d" and "yield d = 4"
    and "\<And>s'. fst (fetchStockFundamentals w ''BBB'' s') = Inl (ValidationError m)"
  shows "\<exists>s'. runSnapshotJob w (\<lambda>i. None) s =
       (Inr (Finished, \<lparr>n_completed = 1, n_failed = 1, entries = [d]\<rparr>), s') \<and>
     kv s' SNAPSHOT_KEY = Some (Snapshot [d]) \<and>
     kv s' JOB_STATUS_KEY = Some (Raw ''idle'')"
proof -
  define s2 where "s2 = snd (initialize w (Some 2) s)"
  have s2: "up s2" "kv s2 JOB_STATUS_KEY = Some (Raw ''running'')"
    using assms(1) by (simp_all add: s2_def initialize_up key_defs up_update)
  obtain s3 where a: "fetchOne w ''AAA'' run_start s2 =
      (Inr \<lparr>n_completed = 1, n_failed = 0, entries = [d]\<rparr>, s3)"
    "up s3 = up s2" "kv s3 = kv s2"
  proof (rule fetchOne_cases [of w "''AAA''" s2 run_start])
    fix d' s'
    assume "fetchStockFundamentals w ''AAA'' s2 = (Inr d', s')"
      and "fetchOne w ''AAA'' run_start s2 =
         (Inr (run_start\<lparr>entries := (if yield d' > 0 then entries run_start @ [d']
                else entries run_start),
             n_completed := Suc (n_completed run_start)\<rparr>), s')"
      and "same_store s2 s'"
    moreover from this(1) have "d' = d" using assms(4) [of s2] by simp
    ultimately show thesis
      using that [of s'] assms(5) up_same_store [of s2 s']
      by (simp add: run_start_def same_store_def)
  next
    fix e s'
    assume "fetchStockFundamentals w ''AAA'' s2 = (Inl e, s')"
    then show thesis using assms(4) [of s2] by simp
  qed
  obtain s4 where b: "fetchOne w ''BBB'' \<lparr>n_completed = 1, n_failed = 0, entries = [d]\<rparr> s3 =
      (Inr \<lparr>n_completed = 1, n_failed = 1, entries = [d]\<rparr>, s4)"
    "up s4 = up s3" "kv s4 = kv s3"
  proof (rule fetchOne_cases [of w "''BBB''" s3 "\<lparr>n_completed = 1, n_failed = 0, entries = [d]\<rparr>"])
    fix d' s'
    assume "fetchStockFundamentals w ''BBB'' s3 = (Inr d', s')"
    then show thesis using assms(6) [of s3] by simp
  next
    fix e s'
    assume "fetchStockFundamentals w ''BBB'' s3 = (Inl e, s')"
      and "fetchOne w ''BBB'' \<lparr>n_completed = 1, n_failed = 0, entries = [d]\<rparr> s3 =
         (Inr (\<lparr>n_completed = 1, n_failed = 0, entries = [d]\<rparr>
            \<lparr>n_failed := Suc (n_failed \<lparr>n_completed = 1, n_failed = 0, entries = [d]\<rparr>)\<rparr>), s')"
      and "same_store s3 s'"
    then show thesis
      using that [of s'] up_same_store [of s3 s'] by (simp add: same_store_def)
  qed
  have i1: "iteration w 2 ''AAA'' run_start s2 =
      (Inr \<lparr>n_completed = 1, n_failed = 0, entries = [d]\<rparr>, s3)"
    using a(1) by (simp add: iteration_def io_defs)
  have i2: "iteration w 2 ''BBB'' \<lparr>n_completed = 1, n_failed = 0, entries = [d]\<rparr> s3 =
      (Inr \<lparr>n_completed = 1, n_failed = 1, entries = [d]\<rparr>, s4)"
    using b(1) by (simp add: iteration_def io_defs)
  have lp: "loop w (\<lambda>i. None) 2 0 [''AAA'', ''BBB''] run_start s2 =
      (Inr (Finished, \<lparr>n_completed = 1, n_failed = 1, entries = [d]\<rparr>), s4)"
    using s2 a(2,3) b(2,3) i1 i2
    by (simp add: io_bind_def interfere_def redis_get_up)
  have len: "length [''AAA'', ''BBB''] = 2"
    by simp
  have "runSnapshotJob w (\<lambda>i. None) s =
      io_bind (redis_set SNAPSHOT_KEY (Snapshot [d]))
        (\<lambda>_. io_bind (redis_set JOB_STATUS_KEY (Raw ''idle''))
          (\<lambda>_. io_return (Finished, \<lparr>n_completed = 1, n_failed = 1, entries = [d]\<rparr>))) s4"
    using runSnapshotJob_started
      [OF assms(1,3,2), of w "\<lambda>i. None", unfolded len, folded s2_def, unfolded lp]
    by simp
  then show ?thesis
    using s2(1) a(2) b(2) by (simp add: io_defs redis_set_up up_update key_defs)
qed

theorem scenario_AAA_BBB_witness:
  "\<exists>s'. runSnapshotJob test_world (\<lambda>i. None) two_tickers =
       (Inr (Finished, \<lparr>n_completed = 1, n_failed = 1, entries = [AAA_record]\<rparr>), s') \<and>
     kv s' SNAPSHOT_KEY = Some (Snapshot [AAA_record]) \<and>
     kv s' JOB_STATUS_KEY = Some (Raw ''idle'')"
  by (rule scenario_AAA_BBB [where m = "''Invalid ticker symbol: BBB''"])
    (simp_all add: two_tickers_def store_of_def key_defs fetch_AAA fetch_BBB up_def,
      simp add: AAA_record_def)

text \<open>
  C3 fails on the code. The progress write is guarded by
  \<open>completed % 50 === 0 || completed === total\<close>, and a failed fetch does not count
  as completed: in the run over \<open>["AAA","BBB"]\<close> in which BBB fails, no checkpoint is
  written on the final symbol. The run finishes, and the only progress record it wrote
  is the initial one.
\<close>

theorem no_checkpoint_on_final_symbol:
  "fst (runSnapshotJob test_world (\<lambda>i. None) two_tickers) =
     Inr (Finished, \<lparr>n_completed = 1, n_failed = 1, entries = [AAA_record]\<rparr>) \<and>
   checkpoints (writes (snd (runSnapshotJob test_world (\<lambda>i. None) two_tickers))) =
     [\<lparr>completed = 0, total = Some 2, startedAt = Some ''2026-01-01T00:00:00.000Z'',
       estimatedMinutes = Some 1\<rparr>]"
  by (simp add: run_two_tickers checkpoints_def map_filter_def key_defs)

text \<open>
  C8, as stated, fails: the job reads the status at the top of an iteration only. In
  the run over \<open>["AAA"]\<close> a cancel request that arrives while the job works on AAA,
  after the status read of that one iteration, is never seen: no iteration follows,
  the run finishes and persists its snapshot.
\<close>

theorem late_cancel_counterexample:
  "cancel_at_1 1 = Some (Raw ''idle'') \<and>
   fst (runSnapshotJob test_world cancel_at_1 AAA_cached) =
     Inr (Finished, \<lparr>n_completed = 1, n_failed = 0, entries = [AAA_record]\<rparr>) \<and>
   kv (snd (runSnapshotJob test_world cancel_at_1 AAA_cached)) SNAPSHOT_KEY =
     Some (Snapshot [AAA_record]) \<and>
   snapshot_writes (writes (snd (runSnapshotJob test_world cancel_at_1 AAA_cached))) =
     [Snapshot [AAA_record]]"
  by (simp add: run_defs io_defs fetch_AAA AAA_cached_def store_of_def key_defs
      cancel_at_1_def snapshot_writes_def)
    (simp add: AAA_record_def)

text \<open>
  C8, amended. A run is started on a reachable store that holds the universe, and before
  the status check of iteration \<open>k\<close>, one of the iterations of the loop, another client
  sets the job status to a value other than \<open>running\<close>. Then the run stops at the top
  of a loop iteration and ends cancelled; the HTTP calls it has made are those of the
  loop over the first \<open>k\<close> symbols, so none is issued from that check on; and no
  snapshot is persisted: the snapshot key is as it was, and the run issued no \<open>set\<close>
  of it.
\<close>

theorem cancellation_stops_run:
  assumes "up s" and "kv s ''tickers'' = Some (Tickers tickers)"
    and "kv s JOB_STATUS_KEY \<noteq> Some (Raw ''running'')"
    and "k < length tickers" and "ext k = Some v" and "v \<noteq> Raw ''running''"
  shows "\<exists>l s'. runSnapshotJob w ext s = (Inr (Cancelled, l), s') \<and>
     calls s' =
       calls (snd (loop w ext (length tickers) 0 (take k tickers) run_start
         (snd (initialize w (Some (length tickers)) s)))) \<and>
     kv s' SNAPSHOT_KEY = kv s SNAPSHOT_KEY \<and>
     snapshot_writes (writes s') = snapshot_writes (writes s)"
proof -
  define s2 where "s2 = snd (initialize w (Some (length tickers)) s)"
  have s2: "up s2" "progress_kept s2" "kv s2 SNAPSHOT_KEY = kv s SNAPSHOT_KEY"
    "snapshot_writes (writes s2) = snapshot_writes (writes s)"
    using assms(1)
    by (simp_all add: s2_def initialize_up up_update progress_kept_def snapshot_writes_def
        key_defs)
  obtain l s' where c: "loop w ext (length tickers) 0 tickers run_start s2 = (Inr (Cancelled, l), s')"
    "calls s' = calls (snd (loop w ext (length tickers) 0 (take (k - 0) tickers) run_start s2))"
    "kv s' SNAPSHOT_KEY = kv s2 SNAPSHOT_KEY"
    "snapshot_writes (writes s') = snapshot_writes (writes s2)"
    using loop_cancel [where ext = ext and k = k and v = v and s = s2 and i = 0
        and ts = tickers and w = w and tot = "length tickers" and l = run_start]
      assms(4,5,6) s2(1,2)
    by auto
  have "runSnapshotJob w ext s = (Inr (Cancelled, l), s')"
    using runSnapshotJob_started [OF assms(1,3,2), of w ext] c(1) by (simp add: s2_def)
  then show ?thesis
    using c s2 by (simp add: s2_def)
qed

theorem cancellation_stops_run_witness:
  "\<exists>l s'. runSnapshotJob test_world cancel_at_1 two_tickers = (Inr (Cancelled, l), s') \<and>
     calls s' = [Overview ''AAA''] \<and> kv s' SNAPSHOT_KEY = None \<and>
     snapshot_writes (writes s') = []"
proof -
  have h: "up two_tickers" "kv two_tickers ''tickers'' = Some (Tickers [''AAA'', ''BBB''])"
    "kv two_tickers JOB_STATUS_KEY \<noteq> Some (Raw ''running'')"
    "1 < length [''AAA'', ''BBB'']" "cancel_at_1 1 = Some (Raw ''idle'')"
    "Raw ''idle'' \<noteq> Raw ''running''"
    by (simp_all add: two_tickers_def store_of_def key_defs cancel_at_1_def up_def)
  have e: "kv two_tickers SNAPSHOT_KEY = None" "snapshot_writes (writes two_tickers) = []"
    "length [''AAA'', ''BBB''] = 2" "take 1 [''AAA'', ''BBB''] = [''AAA'']"
    by (simp_all add: two_tickers_def store_of_def key_defs snapshot_writes_def)
  show ?thesis
    using cancellation_stops_run [where s = two_tickers and tickers = "[''AAA'', ''BBB'']"
        and k = 1 and ext = cancel_at_1 and v = "Raw ''idle''" and w = test_world, OF h]
    unfolding e first_iteration_calls .
qed

text \<open>
  C9. Within one run, whatever the world, the store, the interference and the outcome,
  the progress records the run writes to the store have, in the order written, a
  \<open>completed\<close> field that never decreases, and in none of them \<open>completed\<close>
  exceeds \<open>total\<close>: it is at most the total the record carries, and it is 0 in the one
  record that carries none (the record a run writes when what the universe key holds
  is no array, before it fails at the loop). The log of \<open>set\<close> commands is empty when
  the run starts.
\<close>

theorem progress_monotone:
  assumes "writes s = []"
  shows "sorted (map completed (checkpoints (writes (snd (runSnapshotJob w ext s))))) \<and>
     (\<forall>p \<in> set (checkpoints (writes (snd (runSnapshotJob w ext s)))).
        case total p of None \<Rightarrow> completed p = 0 | Some n \<Rightarrow> completed p \<le> n)"
proof -
  define good where "good ws =
     (sorted (map completed (checkpoints ws)) \<and>
      (\<forall>p \<in> set (checkpoints ws).
         case total p of None \<Rightarrow> completed p = 0 | Some n \<Rightarrow> completed p \<le> n))"
    for ws
  have fin: "progress_inv tot tot ws \<Longrightarrow> good ws" for tot ws
    by (auto simp: progress_inv_def good_def)
  have nil: "good []"
    by (simp add: good_def checkpoints_Nil)
  obtain rs s1 where g: "redis_get JOB_STATUS_KEY s = (rs, s1)"
    by (cases "redis_get JOB_STATUS_KEY s")
  have w1: "writes s1 = []"
    using g assms
    by (rule_tac redis_get_cases [of JOB_STATUS_KEY s]) (auto simp: advance_fields)
  obtain rt s2 where t: "getAllTickers w s1 = (rt, s2)"
    by (cases "getAllTickers w s1")
  have w2: "writes s2 = []"
    using getAllTickers_writes [of w s1] t w1 by simp
  show ?thesis
  proof (cases "\<exists>tickers. rs \<noteq> Inr (Some (Raw ''running'')) \<and> (\<exists>st. rs = Inr st) \<and>
      rt = Inr tickers")
    case False
    then have "writes (snd (runSnapshotJob w ext s)) = []"
      using g t w1 w2
      by (cases rs; cases rt) (auto simp: runSnapshotJob_def io_bind_def io_return_def)
    then show ?thesis
      using nil by (simp add: good_def)
  next
    case True
    then obtain tickers st where rs: "rs = Inr st" "st \<noteq> Some (Raw ''running'')"
      and rt: "rt = Inr tickers"
      by auto
    define tot where "tot = map_option length tickers"
    obtain ri s3 where i: "initialize w tot s2 = (ri, s3)"
      by (cases "initialize w tot s2")
    define p0 where "p0 =
       \<lparr>completed = 0, total = tot, startedAt = Some (now w),
        estimatedMinutes = (case tot of None \<Rightarrow> None | Some n \<Rightarrow> estimate w (int n))\<rparr>"
    have w3: "checkpoints (writes s3) = [] \<or> checkpoints (writes s3) = [p0]"
      using i w2
      by (cases "link s2 0"; cases "link s2 (Suc 0)")
        (auto simp: initialize_def io_bind_def redis_set_def advance_def checkpoints_def
          map_filter_def key_defs p0_def)
    have run: "runSnapshotJob w ext s =
        (case ri of Inl e \<Rightarrow> (Inl e, s3) | Inr x \<Rightarrow> walk w ext tickers s3)"
      using g t i rs rt
      by (simp add: runSnapshotJob_def io_bind_def tot_def split: sum.splits)
    show ?thesis
    proof (cases "\<exists>ts. ri = Inr () \<and> tickers = Some ts")
      case False
      then have "writes (snd (runSnapshotJob w ext s)) = writes s3"
        unfolding run by (cases ri; cases tickers) (auto simp: walk_def io_throw_def)
      moreover have "good (writes s3)"
        using w3 False i
        by (cases tickers) (auto simp: good_def p0_def tot_def)
      ultimately show ?thesis
        by (simp add: good_def)
    next
      case True
      then obtain ts where ri: "ri = Inr ()" and ts: "tickers = Some ts"
        by auto
      have "progress_inv (length ts) 0 (writes s3)"
        using w3 ts by (auto simp: progress_inv_def p0_def tot_def)
      then have "progress_inv (length ts) (length ts)
          (writes (snd (loop w ext (length ts) 0 ts run_start s3)))"
        using loop_progress_inv [of "length ts" run_start s3 ts w ext 0]
        by (simp add: run_start_def)
      moreover obtain r s4 where l: "loop w ext (length ts) 0 ts run_start s3 = (r, s4)"
        by (cases "loop w ext (length ts) 0 ts run_start s3")
      ultimately have inv4: "progress_inv (length ts) (length ts) (writes s4)"
        by simp
      have "writes (snd (runSnapshotJob w ext s)) = writes s4 \<or>
          writes (snd (runSnapshotJob w ext s)) =
            writes s4 @ [(SNAPSHOT_KEY, Snapshot (entries (snd (projr r))))] \<or>
          writes (snd (runSnapshotJob w ext s)) =
            writes s4 @ [(SNAPSHOT_KEY, Snapshot (entries (snd (projr r))))] @
              [(JOB_STATUS_KEY, Raw ''idle'')]"
        unfolding run using ri ts l
        by (cases r; cases "link s4 0"; cases "link s4 (Suc 0)")
          (auto simp: walk_def io_bind_def io_return_def redis_set_def advance_def)
      then have "progress_inv (length ts) (length ts) (writes (snd (runSnapshotJob w ext s)))"
        using inv4
          progress_inv_other [of "length ts" "length ts" "writes s4" SNAPSHOT_KEY]
          progress_inv_other [of "length ts" "length ts"
            "writes s4 @ [(SNAPSHOT_KEY, x)]" JOB_STATUS_KEY for x]
        by (auto simp: key_defs)
      then have "good (writes (snd (runSnapshotJob w ext s)))"
        by (rule fin)
      then show ?thesis
        by (simp add: good_def)
    qed
  qed
qed

text \<open>The witness is the run over \<open>["AAA"]\<close>: it writes the initial record and the
  checkpoint after AAA.\<close>

theorem progress_monotone_witness:
  "map completed
     (checkpoints (writes (snd (runSnapshotJob test_world (\<lambda>i. None) AAA_cached)))) = [0, 1] \<and>
   map total
     (checkpoints (writes (snd (runSnapshotJob test_world (\<lambda>i. None) AAA_cached)))) =
     [Some 1, Some 1] \<and>
   sorted (map completed
     (checkpoints (writes (snd (runSnapshotJob test_world (\<lambda>i. None) AAA_cached))))) \<and>
   list_all (\<lambda>p. case total p of None \<Rightarrow> completed p = 0 | Some n \<Rightarrow> completed p \<le> n)
     (checkpoints (writes (snd (runSnapshotJob test_world (\<lambda>i. None) AAA_cached))))"
proof -
  have e: "writes AAA_cached = []"
    by (simp add: AAA_cached_def store_of_def)
  have r:
    "map completed
       (checkpoints (writes (snd (runSnapshotJob test_world (\<lambda>i. None) AAA_cached)))) = [0, 1]"
    "map total
       (checkpoints (writes (snd (runSnapshotJob test_world (\<lambda>i. None) AAA_cached)))) =
       [Some 1, Some 1]"
    by (simp_all add: run_AAA_cached(3) checkpoints_def map_filter_def key_defs)
  note m = progress_monotone [OF e, of test_world "\<lambda>i. None"]
  have l: "list_all
      (\<lambda>p. case total p of None \<Rightarrow> completed p = 0 | Some n \<Rightarrow> completed p \<le> n)
      (checkpoints (writes (snd (runSnapshotJob test_world (\<lambda>i. None) AAA_cached))))"
    using m [THEN conjunct2] by (simp only: list_all_iff)
  show ?thesis
    by (rule conjI [OF r(1) conjI [OF r(2) conjI [OF m [THEN conjunct1] l]]])
qed

end
